theory Spec2Isabelle
  imports Complex_Main "HOL-Library.Word"
begin

section \<open>Values of the language\<close>

text \<open>
  A JavaScript string is a sequence of UTF-16 code units. ASCII literals are written with
  \<open>asc\<close>; the Russian messages of the source are spelled out as code units.
\<close>

type_synonym jsstring = "16 word list"

definition asc :: "string \<Rightarrow> jsstring" where
  "asc s = map (\<lambda>c. of_nat (of_char c)) s"

text \<open>
  \<open>String.prototype.trim\<close> removes WhiteSpace and LineTerminator code units from both
  ends: TAB, LF, VT, FF, CR, SP, NBSP, U+1680, U+2000..U+200A, LS, PS, U+202F, U+205F,
  U+3000 and U+FEFF.
\<close>

definition isWhiteSpace :: "16 word \<Rightarrow> bool" where
  "isWhiteSpace c \<longleftrightarrow>
     (9 \<le> c \<and> c \<le> 13) \<or> c = 32 \<or> c = 160 \<or> c = 0x1680 \<or>
     (0x2000 \<le> c \<and> c \<le> 0x200A) \<or> c = 0x2028 \<or> c = 0x2029 \<or>
     c = 0x202F \<or> c = 0x205F \<or> c = 0x3000 \<or> c = 0xFEFF"

definition trim :: "jsstring \<Rightarrow> jsstring" where
  "trim s = rev (dropWhile isWhiteSpace (rev (dropWhile isWhiteSpace s)))"

text \<open>
  Truthiness of a value of type \<open>string | null\<close> (or \<open>string | undefined\<close>): \<open>None\<close>
  and the empty string are falsy.
\<close>

definition truthy :: "jsstring option \<Rightarrow> bool" where
  "truthy v = (case v of None \<Rightarrow> False | Some s \<Rightarrow> s \<noteq> [])"

text \<open>\<open>a || b\<close> where \<open>a\<close> is a string or undefined and \<open>b\<close> a string.\<close>

definition or_else :: "jsstring option \<Rightarrow> jsstring \<Rightarrow> jsstring" where
  "or_else a b = (case a of None \<Rightarrow> b | Some s \<Rightarrow> if s \<noteq> [] then s else b)"

text \<open>
  \<open>s.split(',')[1]\<close>: the text between the first and the second comma, undefined when
  the string has no comma.
\<close>

definition split_comma_1 :: "jsstring \<Rightarrow> jsstring option" where
  "split_comma_1 s =
     (case dropWhile (\<lambda>c. c \<noteq> 44) s of
        [] \<Rightarrow> None
      | _ # rest \<Rightarrow> Some (takeWhile (\<lambda>c. c \<noteq> 44) rest))"

text \<open>
  Numbers are IEEE doubles. The model keeps the special values and takes the finite ones as
  reals: rounding and the sign of zero are not modelled.
\<close>

datatype jsnum = Finite real | PosInf | NegInf | NaN

text \<open>
  A runtime value. TypeScript's types are erased when the program runs: \<open>detectUVParts\<close>
  copies \<open>item.label\<close>, \<open>item.x\<close> and \<open>item.y\<close> of an \<open>any\<close> into an annotation, so
  the fields of an annotation hold values, whatever \<open>types.ts\<close> declares.
\<close>

datatype jsval =
    Undefined
  | Null
  | Bool bool
  | Num jsnum
  | Str jsstring
  | Arr "jsval list"
  | Obj "(jsstring \<times> jsval) list"

section \<open>types.ts\<close>

record Annotation =
  id' :: jsstring
  x :: jsval
  y :: jsval
  label :: jsval

record GenerationState =
  isLoading :: bool
  resultImage :: "jsstring option"
  error :: "jsstring option"

section \<open>The application state and its handlers\<close>

record App =
  uvImage :: "jsstring option"
  annotations :: "Annotation list"
  stylePrompt :: jsstring
  editPrompt :: jsstring
  isDetecting :: bool
  genState :: GenerationState

definition initial :: App where
  "initial = \<lparr> uvImage = None, annotations = [], stylePrompt = [], editPrompt = [],
               isDetecting = False,
               genState = \<lparr> isLoading = False, resultImage = None, error = None \<rparr> \<rparr>"

text \<open>The calls a handler makes to \<open>services/gemini\<close>, with their arguments.\<close>

datatype request =
    DetectUVParts "jsstring option"
  | GenerateTexture "jsstring option" jsstring "Annotation list"
  | EditTexture "jsstring option" jsstring

text \<open>
  What an awaited call does: it rejects with an error whose \<open>message\<close> is a string or
  undefined, or it resolves to a value.
\<close>

datatype 'a settled = Rejected "jsstring option" | Resolved 'a

definition msg_style :: jsstring where
  "msg_style = [0x41F, 0x43E, 0x436, 0x430, 0x43B, 0x443, 0x439, 0x441, 0x442, 0x430, 0x2C,
     0x20, 0x43E, 0x43F, 0x438, 0x448, 0x438, 0x442, 0x435, 0x20, 0x441, 0x442, 0x438,
     0x43B, 0x44C, 0x20, 0x442, 0x435, 0x43A, 0x441, 0x442, 0x443, 0x440, 0x44B, 0x2E]"

definition msg_generate :: jsstring where
  "msg_generate = [0x41E, 0x448, 0x438, 0x431, 0x43A, 0x430, 0x20, 0x433, 0x435, 0x43D,
     0x435, 0x440, 0x430, 0x446, 0x438, 0x438]"

definition msg_edit :: jsstring where
  "msg_edit = [0x41E, 0x448, 0x438, 0x431, 0x43A, 0x430, 0x20, 0x440, 0x435, 0x434, 0x430,
     0x43A, 0x442, 0x438, 0x440, 0x43E, 0x432, 0x430, 0x43D, 0x438, 0x44F]"

subsection \<open>handleFileUpload\<close>

text \<open>
  \<open>reader.onload\<close> up to the \<open>await\<close>: the new image is stored, the annotations are
  emptied, result and error are cleared with the rest of the generation state spread from
  \<open>prev\<close>, the detecting flag is raised and the detection call is issued.
\<close>

definition handleFileUpload_onload :: "App \<Rightarrow> jsstring \<Rightarrow> App \<times> request" where
  "handleFileUpload_onload s base64 =
     (s\<lparr> uvImage := Some base64,
         annotations := [],
         genState := (genState s)\<lparr> resultImage := None, error := None \<rparr>,
         isDetecting := True \<rparr>,
      DetectUVParts (split_comma_1 base64))"

text \<open>
  \<open>reader.onload\<close> after the \<open>await\<close>: a non-empty detection result replaces the
  annotations, a rejection is logged only, and \<open>finally\<close> lowers the detecting flag.
\<close>

definition handleFileUpload_detected :: "App \<Rightarrow> Annotation list settled \<Rightarrow> App" where
  "handleFileUpload_detected s r =
     (case r of
        Resolved detectedParts \<Rightarrow>
          (if detectedParts \<noteq> [] then s\<lparr> annotations := detectedParts \<rparr> else s)
            \<lparr> isDetecting := False \<rparr>
      | Rejected _ \<Rightarrow> s\<lparr> isDetecting := False \<rparr>)"

text \<open>
  The whole handler, run to completion with nothing in between. \<open>file\<close> is the data URL
  the reader loads from \<open>e.target.files?.[0]\<close>, \<open>None\<close> when no file was chosen.
\<close>

definition handleFileUpload :: "App \<Rightarrow> jsstring option \<Rightarrow> Annotation list settled \<Rightarrow> App" where
  "handleFileUpload s file r =
     (case file of
        None \<Rightarrow> s
      | Some base64 \<Rightarrow> handleFileUpload_detected (fst (handleFileUpload_onload s base64)) r)"

subsection \<open>handleGenerate\<close>

text \<open>
  Up to the \<open>await\<close>: nothing without an image; the validation message without a style
  description; otherwise the generation state is replaced by the loading state and the
  call is issued.
\<close>

definition handleGenerate_start :: "App \<Rightarrow> App \<times> request option" where
  "handleGenerate_start s =
     (case uvImage s of
        None \<Rightarrow> (s, None)
      | Some img \<Rightarrow>
          if img = [] then (s, None)
          else if trim (stylePrompt s) = [] then
            (s\<lparr> genState := (genState s)\<lparr> error := Some msg_style \<rparr> \<rparr>, None)
          else
            (s\<lparr> genState := \<lparr> isLoading = True, resultImage = None, error = None \<rparr> \<rparr>,
             Some (GenerateTexture (split_comma_1 img) (stylePrompt s) (annotations s))))"

definition handleGenerate_settled :: "App \<Rightarrow> jsstring settled \<Rightarrow> App" where
  "handleGenerate_settled s r =
     (case r of
        Resolved result \<Rightarrow>
          s\<lparr> genState := \<lparr> isLoading = False, resultImage = Some result, error = None \<rparr> \<rparr>
      | Rejected message \<Rightarrow>
          s\<lparr> genState := \<lparr> isLoading = False, resultImage = None,
                            error = Some (or_else message msg_generate) \<rparr> \<rparr>)"

definition handleGenerate :: "App \<Rightarrow> jsstring settled \<Rightarrow> App" where
  "handleGenerate s r =
     (case handleGenerate_start s of
        (s', None) \<Rightarrow> s'
      | (s', Some _) \<Rightarrow> handleGenerate_settled s' r)"

subsection \<open>handleEdit\<close>

definition handleEdit_start :: "App \<Rightarrow> App \<times> request option" where
  "handleEdit_start s =
     (case resultImage (genState s) of
        None \<Rightarrow> (s, None)
      | Some img \<Rightarrow>
          if img = [] \<or> trim (editPrompt s) = [] then (s, None)
          else
            (s\<lparr> genState := (genState s)\<lparr> isLoading := True, error := None \<rparr> \<rparr>,
             Some (EditTexture (split_comma_1 img) (editPrompt s))))"

definition handleEdit_settled :: "App \<Rightarrow> jsstring settled \<Rightarrow> App" where
  "handleEdit_settled s r =
     (case r of
        Resolved result \<Rightarrow>
          s\<lparr> genState := \<lparr> isLoading = False, resultImage = Some result, error = None \<rparr>,
              editPrompt := [] \<rparr>
      | Rejected message \<Rightarrow>
          s\<lparr> genState := (genState s)\<lparr> isLoading := False,
                                         error := Some (or_else message msg_edit) \<rparr> \<rparr>)"

definition handleEdit :: "App \<Rightarrow> jsstring settled \<Rightarrow> App" where
  "handleEdit s r =
     (case handleEdit_start s of
        (s', None) \<Rightarrow> s'
      | (s', Some _) \<Rightarrow> handleEdit_settled s' r)"

subsection \<open>What the view lets through\<close>

text \<open>
  The handlers carry no check of \<open>isLoading\<close>; the view disables controls instead. The
  generate button has \<open>disabled={!uvImage || genState.isLoading || isDetecting}\<close>, the
  edit section is rendered under \<open>genState.resultImage &&\<close>, its button has
  \<open>disabled={!editPrompt.trim() || genState.isLoading}\<close>, its text field calls
  \<open>handleEdit()\<close> on the Enter key, and the file input has \<open>disabled={isDetecting}\<close>.
\<close>

definition generateButton_disabled :: "App \<Rightarrow> bool" where
  "generateButton_disabled s \<longleftrightarrow>
     \<not> truthy (uvImage s) \<or> isLoading (genState s) \<or> isDetecting s"

definition editSection_rendered :: "App \<Rightarrow> bool" where
  "editSection_rendered s \<longleftrightarrow> truthy (resultImage (genState s))"

definition editButton_disabled :: "App \<Rightarrow> bool" where
  "editButton_disabled s \<longleftrightarrow> trim (editPrompt s) = [] \<or> isLoading (genState s)"

definition fileInput_disabled :: "App \<Rightarrow> bool" where
  "fileInput_disabled s \<longleftrightarrow> isDetecting s"

datatype trigger = ClickGenerate | ClickEdit | EnterInEditField | ChooseFile jsstring

text \<open>A trigger's effect up to the first \<open>await\<close>: the new state and the call issued.\<close>

definition dispatch :: "App \<Rightarrow> trigger \<Rightarrow> App \<times> request option" where
  "dispatch s t =
     (case t of
        ClickGenerate \<Rightarrow>
          if generateButton_disabled s then (s, None) else handleGenerate_start s
      | ClickEdit \<Rightarrow>
          if \<not> editSection_rendered s \<or> editButton_disabled s then (s, None)
          else handleEdit_start s
      | EnterInEditField \<Rightarrow>
          if \<not> editSection_rendered s then (s, None) else handleEdit_start s
      | ChooseFile base64 \<Rightarrow>
          if fileInput_disabled s then (s, None)
          else (fst (handleFileUpload_onload s base64),
                Some (snd (handleFileUpload_onload s base64))))"

subsection \<open>Sequences of completed operations\<close>

datatype action =
    Upload "jsstring option" "Annotation list settled"
  | Generate "jsstring settled"
  | Edit "jsstring settled"
  | SetStylePrompt jsstring
  | SetEditPrompt jsstring
  | SetAnnotations "Annotation list"

fun perform :: "App \<Rightarrow> action \<Rightarrow> App" where
  "perform s (Upload file r) = handleFileUpload s file r"
| "perform s (Generate r) = handleGenerate s r"
| "perform s (Edit r) = handleEdit s r"
| "perform s (SetStylePrompt v) = s\<lparr> stylePrompt := v \<rparr>"
| "perform s (SetEditPrompt v) = s\<lparr> editPrompt := v \<rparr>"
| "perform s (SetAnnotations v) = s\<lparr> annotations := v \<rparr>"

definition run :: "App \<Rightarrow> action list \<Rightarrow> App" where
  "run s acts = foldl perform s acts"

subsection \<open>The running application\<close>

text \<open>
  Between a trigger and the settling of its call other events happen. A state of the
  running application is the state of the coordinator with the calls in flight; the calls
  settle in any order.
\<close>

record Running =
  app :: App
  pending :: "request list"

inductive reachable :: "Running \<Rightarrow> bool" where
  started: "reachable \<lparr> app = initial, pending = [] \<rparr>"
| triggered:
    "reachable \<sigma> \<Longrightarrow> dispatch (app \<sigma>) t = (s', rq) \<Longrightarrow>
       reachable \<lparr> app = s',
                   pending = pending \<sigma> @ (case rq of None \<Rightarrow> [] | Some q \<Rightarrow> [q]) \<rparr>"
| typed_style: "reachable \<sigma> \<Longrightarrow> reachable (\<sigma>\<lparr> app := (app \<sigma>)\<lparr> stylePrompt := v \<rparr> \<rparr>)"
| typed_edit: "reachable \<sigma> \<Longrightarrow> reachable (\<sigma>\<lparr> app := (app \<sigma>)\<lparr> editPrompt := v \<rparr> \<rparr>)"
| annotated: "reachable \<sigma> \<Longrightarrow> reachable (\<sigma>\<lparr> app := (app \<sigma>)\<lparr> annotations := anns \<rparr> \<rparr>)"
| detected:
    "reachable \<sigma> \<Longrightarrow> pending \<sigma> = before @ DetectUVParts i # after \<Longrightarrow>
       reachable \<lparr> app = handleFileUpload_detected (app \<sigma>) r, pending = before @ after \<rparr>"
| generated:
    "reachable \<sigma> \<Longrightarrow> pending \<sigma> = before @ GenerateTexture i p anns # after \<Longrightarrow>
       reachable \<lparr> app = handleGenerate_settled (app \<sigma>) r, pending = before @ after \<rparr>"
| edited:
    "reachable \<sigma> \<Longrightarrow> pending \<sigma> = before @ EditTexture i p # after \<Longrightarrow>
       reachable \<lparr> app = handleEdit_settled (app \<sigma>) r, pending = before @ after \<rparr>"

section \<open>services/gemini.ts\<close>

text \<open>
  A part of a response of \<open>ai.models.generateContent\<close>: \<open>inlineData\<close> may be absent, and
  its \<open>data\<close> may be absent. A response is taken as the list
  \<open>response.candidates?.[0]?.content?.parts || []\<close>.
\<close>

record Part =
  inlineData :: "jsstring option option"

text \<open>The loop over the parts: the first part with \<open>inlineData\<close> and truthy \<open>data\<close>.\<close>

fun first_inline_data :: "Part list \<Rightarrow> jsstring option" where
  "first_inline_data [] = None"
| "first_inline_data (p # ps) =
     (case inlineData p of
        Some (Some d) \<Rightarrow> if d \<noteq> [] then Some d else first_inline_data ps
      | _ \<Rightarrow> first_inline_data ps)"

text \<open>
  The \<open>try\<close> block of \<open>generateTexture\<close> and of \<open>editTexture\<close>: the awaited call may reject;
  a response without image data throws the given message. The \<open>catch\<close> block rethrows
  with \<open>error.message || fallback\<close>.
\<close>

definition image_try :: "jsstring \<Rightarrow> Part list settled \<Rightarrow> jsstring settled" where
  "image_try no_data r =
     (case r of
        Rejected m \<Rightarrow> Rejected m
      | Resolved parts \<Rightarrow>
          (case first_inline_data parts of
             Some d \<Rightarrow> Resolved (asc ''data:image/png;base64,'' @ d)
           | None \<Rightarrow> Rejected (Some no_data)))"

definition image_catch :: "jsstring \<Rightarrow> jsstring settled \<Rightarrow> jsstring settled" where
  "image_catch fallback r =
     (case r of
        Rejected m \<Rightarrow> Rejected (Some (or_else m fallback))
      | Resolved v \<Rightarrow> Resolved v)"

text \<open>
  \<open>generateTexture\<close> builds its prompt before the \<open>try\<close> block, in a \<open>forEach\<close> over the
  annotations: the template literal takes \<open>Math.round(ann.x)\<close>, \<open>Math.round(ann.y)\<close> and
  \<open>${ann.label}\<close>, then \<open>ann.label.toLowerCase()\<close> is called. Each of them can throw a
  TypeError, which rejects the promise of the function before any call is made.

  \<open>Math.round\<close> converts its argument to a number and the template converts the label to a
  string. Both conversions go through \<open>valueOf\<close> and \<open>toString\<close> and throw when neither
  gives a primitive value. For a value that \<open>JSON.parse\<close> built, whose properties are never
  callable, that is an object with a property \<open>toString\<close> of its own, which hides the one
  of the prototype; an array is joined, so it throws when one of its elements does (the
  elements \<open>null\<close> and \<open>undefined\<close> are joined as the empty string).
\<close>

fun to_primitive_throws :: "jsval \<Rightarrow> bool" where
  "to_primitive_throws (Obj props) = (map_of props (asc ''toString'') \<noteq> None)"
| "to_primitive_throws (Arr items) = list_ex to_primitive_throws items"
| "to_primitive_throws _ = False"

text \<open>\<open>ann.label.toLowerCase()\<close> throws unless the label is a string.\<close>

definition label_is_string :: "Annotation \<Rightarrow> bool" where
  "label_is_string ann = (case label ann of Str _ \<Rightarrow> True | _ \<Rightarrow> False)"

text \<open>The body of the \<open>forEach\<close> for one annotation runs without throwing.\<close>

definition annotation_text_builds :: "Annotation \<Rightarrow> bool" where
  "annotation_text_builds ann \<longleftrightarrow>
     \<not> to_primitive_throws (x ann) \<and> \<not> to_primitive_throws (y ann)
     \<and> \<not> to_primitive_throws (label ann) \<and> label_is_string ann"

definition prompt_builds :: "Annotation list \<Rightarrow> bool" where
  "prompt_builds anns = list_all annotation_text_builds anns"

text \<open>
  \<open>type_error\<close> is the message of the TypeError thrown while the prompt is built, which
  the engine chooses. When the prompt builds, the call is made.
\<close>

definition generateTexture ::
  "jsstring option \<Rightarrow> Annotation list \<Rightarrow> Part list settled \<Rightarrow> jsstring settled" where
  "generateTexture type_error anns r =
     (if prompt_builds anns then
        image_catch (asc ''Failed to generate texture'')
          (image_try (asc ''No image data received from Gemini.'') r)
      else Rejected type_error)"

definition editTexture :: "Part list settled \<Rightarrow> jsstring settled" where
  "editTexture r =
     image_catch (asc ''Failed to edit texture'')
       (image_try (asc ''No edited image data received.'') r)"

subsection \<open>Decimal rendering of integers\<close>

text \<open>
  \<open>Date.now().toString()\<close> and the \<open>${...}\<close> of a template literal render an integer
  below \<open>10^21\<close> in magnitude in decimal digits.
\<close>

function toString_nat :: "nat \<Rightarrow> jsstring" where
  "toString_nat n =
     (if n < 10 then [of_nat (48 + n)]
      else toString_nat (n div 10) @ [of_nat (48 + n mod 10)])"
  by pat_completeness auto
termination
  by (relation "measure (\<lambda>n. n)") auto

declare toString_nat.simps [simp del]

definition toString_int :: "int \<Rightarrow> jsstring" where
  "toString_int i = (if i < 0 then 45 # toString_nat (nat (- i)) else toString_nat (nat i))"

subsection \<open>detectUVParts\<close>

text \<open>
  \<open>item.label\<close>, \<open>item.x\<close>, \<open>item.y\<close>: reading a property of \<open>null\<close> or \<open>undefined\<close>
  throws a TypeError (\<open>None\<close>); an object gives the property or \<open>undefined\<close>; every other
  value gives \<open>undefined\<close>, no prototype defining these three names.
\<close>

definition get_property :: "jsval \<Rightarrow> jsstring \<Rightarrow> jsval option" where
  "get_property item key =
     (case item of
        Undefined \<Rightarrow> None
      | Null \<Rightarrow> None
      | Obj props \<Rightarrow> Some (case map_of props key of None \<Rightarrow> Undefined | Some v \<Rightarrow> v)
      | _ \<Rightarrow> Some Undefined)"

text \<open>The template literal \<open>auto-${Date.now()}-${index}\<close>.\<close>

definition auto_id :: "int \<Rightarrow> nat \<Rightarrow> jsstring" where
  "auto_id now index = asc ''auto-'' @ toString_int now @ asc ''-'' @ toString_nat index"

text \<open>The callback of \<open>parsed.map\<close>; \<open>now\<close> is the reading of \<open>Date.now()\<close> in this call.\<close>

definition to_annotation :: "int \<Rightarrow> nat \<Rightarrow> jsval \<Rightarrow> Annotation option" where
  "to_annotation now index item =
     (case get_property item (asc ''label'') of
        None \<Rightarrow> None
      | Some l \<Rightarrow>
          (case get_property item (asc ''x'') of
             None \<Rightarrow> None
           | Some vx \<Rightarrow>
               (case get_property item (asc ''y'') of
                  None \<Rightarrow> None
                | Some vy \<Rightarrow>
                    Some \<lparr> id' = auto_id now index, x = vx, y = vy, label = l \<rparr>)))"

text \<open>
  \<open>Array.prototype.map\<close> with the index, from \<open>index\<close> on; \<open>clock i\<close> is the reading of
  \<open>Date.now()\<close> in the call for index \<open>i\<close>. A throwing callback ends the map.
\<close>

fun map_items :: "(nat \<Rightarrow> int) \<Rightarrow> nat \<Rightarrow> jsval list \<Rightarrow> Annotation list option" where
  "map_items clock index [] = Some []"
| "map_items clock index (item # items) =
     (case to_annotation (clock index) index item of
        None \<Rightarrow> None
      | Some a \<Rightarrow>
          (case map_items clock (Suc index) items of
             None \<Rightarrow> None
           | Some as \<Rightarrow> Some (a # as)))"

text \<open>
  The \<open>try\<close> block; \<open>None\<close> is a thrown exception. \<open>parse\<close> is \<open>JSON.parse\<close>, which gives a
  value or throws (\<open>None\<close>); calling \<open>.map\<close> on a parsed value that is not an array throws.
\<close>

definition detect_try ::
  "(jsstring \<Rightarrow> jsval option) \<Rightarrow> (nat \<Rightarrow> int) \<Rightarrow> jsstring option settled
     \<Rightarrow> Annotation list option" where
  "detect_try parse clock r =
     (case r of
        Rejected _ \<Rightarrow> None
      | Resolved text \<Rightarrow>
          (case text of
             None \<Rightarrow> Some []
           | Some t \<Rightarrow>
               if t = [] then Some []
               else
                 (case parse t of
                    None \<Rightarrow> None
                  | Some parsed \<Rightarrow>
                      (case parsed of
                         Arr items \<Rightarrow> map_items clock 0 items
                       | _ \<Rightarrow> None))))"

definition detectUVParts ::
  "(jsstring \<Rightarrow> jsval option) \<Rightarrow> (nat \<Rightarrow> int) \<Rightarrow> jsstring option settled
     \<Rightarrow> Annotation list settled" where
  "detectUVParts parse clock r =
     (case detect_try parse clock r of
        None \<Rightarrow> Resolved []
      | Some result \<Rightarrow> Resolved result)"

section \<open>components/CanvasEditor.tsx\<close>

subsection \<open>Arithmetic of numbers\<close>

fun js_sub :: "jsnum \<Rightarrow> jsnum \<Rightarrow> jsnum" where
  "js_sub NaN _ = NaN"
| "js_sub _ NaN = NaN"
| "js_sub (Finite a) (Finite b) = Finite (a - b)"
| "js_sub (Finite a) PosInf = NegInf"
| "js_sub (Finite a) NegInf = PosInf"
| "js_sub PosInf PosInf = NaN"
| "js_sub PosInf _ = PosInf"
| "js_sub NegInf NegInf = NaN"
| "js_sub NegInf _ = NegInf"

text \<open>Division; a zero divisor is taken as \<open>+0\<close>.\<close>

fun js_div :: "jsnum \<Rightarrow> jsnum \<Rightarrow> jsnum" where
  "js_div NaN _ = NaN"
| "js_div _ NaN = NaN"
| "js_div (Finite a) (Finite b) =
     (if b = 0 then (if a = 0 then NaN else if 0 < a then PosInf else NegInf)
      else Finite (a / b))"
| "js_div (Finite a) _ = Finite 0"
| "js_div PosInf (Finite b) = (if b < 0 then NegInf else PosInf)"
| "js_div NegInf (Finite b) = (if b < 0 then PosInf else NegInf)"
| "js_div _ _ = NaN"

fun js_mul :: "jsnum \<Rightarrow> jsnum \<Rightarrow> jsnum" where
  "js_mul NaN _ = NaN"
| "js_mul _ NaN = NaN"
| "js_mul (Finite a) (Finite b) = Finite (a * b)"
| "js_mul (Finite a) PosInf = (if a = 0 then NaN else if 0 < a then PosInf else NegInf)"
| "js_mul (Finite a) NegInf = (if a = 0 then NaN else if 0 < a then NegInf else PosInf)"
| "js_mul PosInf (Finite b) = (if b = 0 then NaN else if 0 < b then PosInf else NegInf)"
| "js_mul NegInf (Finite b) = (if b = 0 then NaN else if 0 < b then NegInf else PosInf)"
| "js_mul PosInf PosInf = PosInf"
| "js_mul PosInf NegInf = NegInf"
| "js_mul NegInf PosInf = NegInf"
| "js_mul NegInf NegInf = PosInf"

text \<open>\<open>Math.min\<close> and \<open>Math.max\<close> of two arguments: NaN when either is NaN.\<close>

fun Math_min :: "jsnum \<Rightarrow> jsnum \<Rightarrow> jsnum" where
  "Math_min NaN _ = NaN"
| "Math_min _ NaN = NaN"
| "Math_min NegInf _ = NegInf"
| "Math_min _ NegInf = NegInf"
| "Math_min PosInf b = b"
| "Math_min a PosInf = a"
| "Math_min (Finite a) (Finite b) = Finite (min a b)"

fun Math_max :: "jsnum \<Rightarrow> jsnum \<Rightarrow> jsnum" where
  "Math_max NaN _ = NaN"
| "Math_max _ NaN = NaN"
| "Math_max PosInf _ = PosInf"
| "Math_max _ PosInf = PosInf"
| "Math_max NegInf b = b"
| "Math_max a NegInf = a"
| "Math_max (Finite a) (Finite b) = Finite (max a b)"

subsection \<open>The editor\<close>

text \<open>
  The rectangle of \<open>getBoundingClientRect()\<close> and the coordinates of a pointer event are
  finite numbers.
\<close>

record DOMRect =
  left :: real
  top' :: real
  width :: real
  height :: real

record PointerEvent =
  clientX :: real
  clientY :: real

record Editor =
  tempLabel :: jsstring
  pendingClick :: "(jsnum \<times> jsnum) option"
  draggingId :: "jsstring option"

text \<open>
  The position \<open>handlePointerMove\<close> computes: the percentage along each axis, then the
  clamp \<open>Math.max(0, Math.min(100, _))\<close>.
\<close>

definition percent :: "real \<Rightarrow> real \<Rightarrow> real \<Rightarrow> jsnum" where
  "percent client origin extent =
     js_mul (js_div (js_sub (Finite client) (Finite origin)) (Finite extent)) (Finite 100)"

definition clamp :: "jsnum \<Rightarrow> jsnum" where
  "clamp v = Math_max (Finite 0) (Math_min (Finite 100) v)"

text \<open>
  \<open>handlePointerMove\<close>: nothing without a drag or without the container; otherwise every
  annotation whose id is the dragged one gets the clamped position, the others stay.
\<close>

definition handlePointerMove ::
  "jsstring option \<Rightarrow> DOMRect option \<Rightarrow> PointerEvent \<Rightarrow> Annotation list \<Rightarrow> Annotation list" where
  "handlePointerMove dragging container e prev =
     (case dragging of
        None \<Rightarrow> prev
      | Some d \<Rightarrow>
          if d = [] then prev
          else
            (case container of
               None \<Rightarrow> prev
             | Some rect \<Rightarrow>
                 map (\<lambda>ann. if id' ann = d
                     then ann\<lparr> x := Num (clamp (percent (clientX e) (left rect) (width rect))),
                               y := Num (clamp (percent (clientY e) (top' rect) (height rect))) \<rparr>
                     else ann) prev))"

text \<open>\<open>handleImageClick\<close>: the unclamped position becomes the pending click.\<close>

definition handleImageClick ::
  "bool \<Rightarrow> DOMRect option \<Rightarrow> PointerEvent \<Rightarrow> Editor \<Rightarrow> Editor" where
  "handleImageClick has_image container e ed =
     (if truthy (draggingId ed) \<or> \<not> has_image then ed
      else
        (case container of
           None \<Rightarrow> ed
         | Some rect \<Rightarrow>
             ed\<lparr> pendingClick := Some (percent (clientX e) (left rect) (width rect),
                                        percent (clientY e) (top' rect) (height rect)) \<rparr>))"


definition startDrag :: "jsstring \<Rightarrow> Editor \<Rightarrow> Editor" where
  "startDrag i ed = ed\<lparr> draggingId := Some i, pendingClick := None \<rparr>"

definition handleCancel :: "Editor \<Rightarrow> Editor" where
  "handleCancel ed = ed\<lparr> pendingClick := None, tempLabel := [] \<rparr>"

section \<open>Sample states\<close>

definition ex_image :: jsstring where
  "ex_image = asc ''data:image/png;base64,AAAA''"

definition ex_image2 :: jsstring where
  "ex_image2 = asc ''data:image/png;base64,BBBB''"

definition ex_result :: jsstring where
  "ex_result = asc ''data:image/png;base64,RRRR''"

text \<open>An image is loaded, a texture has been generated, both prompts are filled in.\<close>

definition ex_ready :: App where
  "ex_ready = \<lparr> uvImage = Some ex_image, annotations = [],
                stylePrompt = asc ''cyberpunk armor'', editPrompt = asc ''make it red'',
                isDetecting = False,
                genState = \<lparr> isLoading = False, resultImage = Some ex_result,
                             error = None \<rparr> \<rparr>"

text \<open>The same with a blank style description.\<close>

definition ex_blank :: App where
  "ex_blank = ex_ready\<lparr> stylePrompt := asc ''   '' \<rparr>"

text \<open>A generation has been started from \<open>ex_ready\<close> and has not settled.\<close>

definition ex_loading :: App where
  "ex_loading = \<lparr> uvImage = Some ex_image, annotations = [],
                  stylePrompt = asc ''cyberpunk armor'', editPrompt = asc ''make it red'',
                  isDetecting = False,
                  genState = \<lparr> isLoading = True, resultImage = None, error = None \<rparr> \<rparr>"

text \<open>An edit has been started from \<open>ex_ready\<close> and has not settled.\<close>

definition ex_editing :: App where
  "ex_editing = ex_ready\<lparr> genState := \<lparr> isLoading = True, resultImage = Some ex_result,
                                          error = None \<rparr> \<rparr>"

definition quota_exceeded :: "Part list settled" where
  "quota_exceeded = Rejected (Some (asc ''quota exceeded''))"

text \<open>A canvas of 200 by 100 pixels at (10, 20), and two annotations on it.\<close>

definition ex_rect :: DOMRect where
  "ex_rect = \<lparr> left = 10, top' = 20, width = 200, height = 100 \<rparr>"

definition ex_face :: Annotation where
  "ex_face = \<lparr> id' = asc ''auto-1700000000000-0'', x = Num (Finite 80), y = Num (Finite 20),
               label = Str (asc ''Face'') \<rparr>"

definition ex_torso :: Annotation where
  "ex_torso = \<lparr> id' = asc ''auto-1700000000000-1'', x = Num (Finite 50), y = Num (Finite 50),
                label = Str (asc ''Torso'') \<rparr>"

text \<open>The pointer right of the canvas, half way down.\<close>

definition ex_move :: PointerEvent where
  "ex_move = \<lparr> clientX = 250, clientY = 70 \<rparr>"


text \<open>
  \<open>JSON.parse\<close> on three texts: a response with one record, the text \<open>null\<close> and an array
  holding \<open>null\<close>; every other text is taken as one that does not parse.
\<close>

definition ex_json :: jsstring where
  \<open>ex_json = asc ''[{"label":"Face","x":80,"y":20}]''\<close>

definition parse_sample :: "jsstring \<Rightarrow> jsval option" where
  "parse_sample t =
     (if t = ex_json then
        Some (Arr [Obj [(asc ''label'', Str (asc ''Face'')), (asc ''x'', Num (Finite 80)),
                        (asc ''y'', Num (Finite 20))]])
      else if t = asc ''null'' then Some Null
      else if t = asc ''[null]'' then Some (Arr [Null])
      else None)"

text \<open>
  An annotation as \<open>detectUVParts\<close> copies it from the record
  \<open>{"label":"Face","x":{"toString":null},"y":20}\<close>: its \<open>x\<close> cannot be converted to a
  number.
\<close>

definition ex_unconvertible :: Annotation where
  "ex_unconvertible = \<lparr> id' = asc ''auto-1700000000000-0'',
                        x = Obj [(asc ''toString'', Null)], y = Num (Finite 20),
                        label = Str (asc ''Face'') \<rparr>"


text \<open>\<open>ex_ready\<close> with a detected annotation.\<close>

definition ex_annotated :: App where
  "ex_annotated = ex_ready\<lparr> annotations := [ex_face] \<rparr>"

section \<open>Auxiliary facts\<close>

subsection \<open>Strings and messages\<close>

lemma or_else_truthy: "truthy m \<Longrightarrow> Some (or_else m b) = m"
  by (cases m) (auto simp: truthy_def or_else_def)

lemma or_else_nonempty: "b \<noteq> [] \<Longrightarrow> or_else m b \<noteq> []"
  by (cases m) (auto simp: or_else_def)


lemma msg_style_nonempty: "msg_style \<noteq> []"
  by (simp add: msg_style_def)

lemma trim_cyberpunk: "trim (asc ''cyberpunk armor'') \<noteq> []"
  by (simp add: trim_def asc_def isWhiteSpace_def)

lemma trim_make_it_red: "trim (asc ''make it red'') \<noteq> []"
  by (simp add: trim_def asc_def isWhiteSpace_def)

lemma trim_blank: "trim (asc ''   '') = []"
  by (simp add: trim_def asc_def isWhiteSpace_def)


lemma ex_image_nonempty: "ex_image \<noteq> []" "ex_image2 \<noteq> []" "ex_result \<noteq> []"
  by (simp_all add: ex_image_def ex_image2_def ex_result_def asc_def)

subsection \<open>The errors of the service layer carry a message\<close>

lemma image_catch_Rejected:
  "image_catch fb r = Rejected m \<Longrightarrow> fb \<noteq> [] \<Longrightarrow> truthy m"
  by (cases r) (auto simp: image_catch_def truthy_def or_else_nonempty)

lemma generateTexture_Rejected:
  "prompt_builds anns \<Longrightarrow> generateTexture te anns a = Rejected m \<Longrightarrow> truthy m"
  unfolding generateTexture_def by (simp, erule image_catch_Rejected) (simp add: asc_def)

lemma editTexture_Rejected: "editTexture a = Rejected m \<Longrightarrow> truthy m"
  unfolding editTexture_def by (erule image_catch_Rejected) (simp add: asc_def)

lemma generateTexture_service_message:
  "q \<noteq> [] \<Longrightarrow> prompt_builds anns \<Longrightarrow>
     generateTexture te anns (Rejected (Some q)) = Rejected (Some q)"
  by (simp add: generateTexture_def image_try_def image_catch_def or_else_def)

lemma editTexture_service_message:
  "q \<noteq> [] \<Longrightarrow> editTexture (Rejected (Some q)) = Rejected (Some q)"
  by (simp add: editTexture_def image_try_def image_catch_def or_else_def)

lemma handleGenerate_Rejected:
  assumes "truthy (uvImage s)" and "trim (stylePrompt s) \<noteq> []"
  shows "genState (handleGenerate s (Rejected e)) =
           \<lparr> isLoading = False, resultImage = None, error = Some (or_else e msg_generate) \<rparr>"
  using assms
  by (auto simp: handleGenerate_def handleGenerate_start_def handleGenerate_settled_def
        truthy_def split: option.splits)

lemma handleEdit_Rejected:
  assumes "resultImage (genState s) = Some R" and "R \<noteq> []" and "trim (editPrompt s) \<noteq> []"
  shows "genState (handleEdit s (Rejected e)) =
           \<lparr> isLoading = False, resultImage = Some R, error = Some (or_else e msg_edit) \<rparr>"
  using assms
  by (simp add: handleEdit_def handleEdit_start_def handleEdit_settled_def)

lemma prompt_builds_samples:
  "prompt_builds (annotations ex_ready)" "prompt_builds (annotations ex_annotated)"
  "\<not> prompt_builds [ex_unconvertible]"
  by (simp_all add: ex_ready_def ex_annotated_def prompt_builds_def annotation_text_builds_def
        label_is_string_def ex_face_def ex_unconvertible_def)

lemma generateTexture_unconvertible:
  "generateTexture te [ex_unconvertible] r = Rejected te"
  by (simp add: generateTexture_def prompt_builds_samples)

subsection \<open>The sample states are states of the running application\<close>

lemma ex_ready_reached:
  "ex_ready = run initial [Upload (Some ex_image) (Resolved []),
       SetStylePrompt (asc ''cyberpunk armor''), Generate (Resolved ex_result),
       SetEditPrompt (asc ''make it red'')]"
  by (simp add: ex_ready_def run_def initial_def handleFileUpload_def
        handleFileUpload_onload_def handleFileUpload_detected_def handleGenerate_def
        handleGenerate_start_def handleGenerate_settled_def ex_image_nonempty trim_cyberpunk)

lemma ex_loading_reached: "ex_loading = fst (dispatch ex_ready ClickGenerate)"
  by (simp add: ex_loading_def ex_ready_def dispatch_def generateButton_disabled_def
        handleGenerate_start_def truthy_def ex_image_nonempty trim_cyberpunk)

lemma ex_editing_reached: "ex_editing = fst (dispatch ex_ready ClickEdit)"
  by (simp add: ex_editing_def ex_ready_def dispatch_def editButton_disabled_def
        editSection_rendered_def
        handleEdit_start_def truthy_def ex_image_nonempty trim_make_it_red)

subsection \<open>Completed operations leave nothing loading\<close>

lemma handleGenerate_not_loading:
  "\<not> isLoading (genState s) \<Longrightarrow> \<not> isLoading (genState (handleGenerate s r))"
  by (cases r)
     (auto simp: handleGenerate_def handleGenerate_start_def handleGenerate_settled_def
        split: option.splits)

lemma handleEdit_not_loading:
  "\<not> isLoading (genState s) \<Longrightarrow> \<not> isLoading (genState (handleEdit s r))"
  by (cases r)
     (auto simp: handleEdit_def handleEdit_start_def handleEdit_settled_def
        split: option.splits)

lemma handleFileUpload_isLoading:
  "isLoading (genState (handleFileUpload s chosen r)) = isLoading (genState s)"
  by (cases r; cases chosen)
     (simp_all add: handleFileUpload_def handleFileUpload_onload_def
        handleFileUpload_detected_def)

lemma perform_not_loading:
  "\<not> isLoading (genState s) \<Longrightarrow> \<not> isLoading (genState (perform s a))"
  by (cases a)
     (simp_all add: handleGenerate_not_loading handleEdit_not_loading
        handleFileUpload_isLoading)

lemma run_not_loading:
  "\<not> isLoading (genState s) \<Longrightarrow> \<not> isLoading (genState (run s acts))"
  unfolding run_def
  by (induction acts arbitrary: s) (simp_all add: perform_not_loading)

subsection \<open>Events of the running application\<close>

lemma dispatch_keeps_exclusion:
  assumes "\<not> (isLoading (genState s) \<and> error (genState s) \<noteq> None)"
    and "dispatch s t = (s', rq)"
  shows "\<not> (isLoading (genState s') \<and> error (genState s') \<noteq> None)"
  using assms
  by (cases t)
     (auto simp: dispatch_def generateButton_disabled_def handleGenerate_start_def
        handleEdit_start_def handleFileUpload_onload_def
        split: if_splits option.splits)

lemma settled_not_loading:
  "\<not> isLoading (genState (handleGenerate_settled s r))"
  "\<not> isLoading (genState (handleEdit_settled s r))"
  by (cases r; simp add: handleGenerate_settled_def handleEdit_settled_def)+

lemma detected_genState: "genState (handleFileUpload_detected s d) = genState s"
  by (cases d) (simp_all add: handleFileUpload_detected_def)

lemma dispatch_loading_pending:
  assumes "dispatch s t = (s', rq)" and "isLoading (genState s')"
  shows "isLoading (genState s) \<or> (\<exists>q. rq = Some q \<and> (\<forall>i. q \<noteq> DetectUVParts i))"
  using assms
  by (cases t)
     (auto simp: dispatch_def handleGenerate_start_def handleEdit_start_def
        handleFileUpload_onload_def split: if_splits option.splits)

lemma reachable_loading_pending:
  "reachable \<sigma> \<Longrightarrow> isLoading (genState (app \<sigma>)) \<Longrightarrow>
     \<exists>q \<in> set (pending \<sigma>). \<forall>i. q \<noteq> DetectUVParts i"
proof (induction rule: reachable.induct)
  case started
  then show ?case by (simp add: initial_def)
next
  case (triggered \<sigma> t s' rq)
  from triggered.prems have "isLoading (genState s')" by simp
  with triggered.hyps(2)
  have "isLoading (genState (app \<sigma>)) \<or> (\<exists>q. rq = Some q \<and> (\<forall>i. q \<noteq> DetectUVParts i))"
    by (rule dispatch_loading_pending)
  then show ?case
  proof
    assume "isLoading (genState (app \<sigma>))"
    with triggered.IH show ?thesis by auto
  next
    assume "\<exists>q. rq = Some q \<and> (\<forall>i. q \<noteq> DetectUVParts i)"
    then show ?thesis by auto
  qed
next
  case (detected \<sigma> before i after r)
  from detected.prems have "isLoading (genState (app \<sigma>))"
    by (simp add: detected_genState)
  with detected.IH obtain q where "q \<in> set (pending \<sigma>)" and "\<forall>i. q \<noteq> DetectUVParts i"
    by blast
  with detected.hyps(2) show ?case by auto
qed (simp_all add: settled_not_loading)

subsection \<open>The clamp\<close>

lemma clamp_percent:
  assumes "0 < w"
  shows "clamp (percent c origin w) = Finite (max 0 (min 100 ((c - origin) / w * 100)))"
  using assms by (simp add: clamp_def percent_def)

lemma pinned:
  fixes c origin w :: real
  assumes "0 < w"
  shows "0 \<le> max 0 (min 100 ((c - origin) / w * 100))
       \<and> max 0 (min 100 ((c - origin) / w * 100)) \<le> 100
       \<and> (origin \<le> c \<and> c \<le> origin + w
            \<longrightarrow> max 0 (min 100 ((c - origin) / w * 100)) = (c - origin) / w * 100)
       \<and> (c < origin \<longrightarrow> max 0 (min 100 ((c - origin) / w * 100)) = 0)
       \<and> (origin + w < c \<longrightarrow> max 0 (min 100 ((c - origin) / w * 100)) = 100)"
proof -
  have inside: "0 \<le> (c - origin) / w * 100 \<and> (c - origin) / w * 100 \<le> 100"
    if "origin \<le> c" and "c \<le> origin + w"
    using that assms by (simp add: field_simps)
  have below: "(c - origin) / w * 100 < 0" if "c < origin"
    using that assms by (simp add: field_simps)
  have above: "100 < (c - origin) / w * 100" if "origin + w < c"
    using that assms by (simp add: field_simps)
  show ?thesis using inside below above by (auto simp: max_def min_def)
qed

lemma ex_face_torso_ids: "id' ex_face = asc ''auto-1700000000000-0''"
  "id' ex_torso \<noteq> asc ''auto-1700000000000-0''"
  by (simp_all add: ex_face_def ex_torso_def asc_def)

subsection \<open>A decimal rendering determines its number\<close>

lemma digit_unat: "d < 10 \<Longrightarrow> unat (of_nat (48 + d) :: 16 word) = 48 + d"
  by (simp add: unat_of_nat del: of_nat_add)

lemma toString_nat_digits: "c \<in> set (toString_nat n) \<Longrightarrow> 48 \<le> unat c \<and> unat c \<le> 57"
proof (induction n rule: toString_nat.induct)
  case (1 n)
  show ?case
  proof (cases "n < 10")
    case True
    with "1.prems" have "c = of_nat (48 + n)" by (simp add: toString_nat.simps [of n])
    with True show ?thesis by (simp add: digit_unat del: of_nat_add)
  next
    case False
    with "1.prems" have "c \<in> set (toString_nat (n div 10)) \<or> c = of_nat (48 + n mod 10)"
      by (auto simp: toString_nat.simps [of n])
    then show ?thesis
    proof
      assume "c \<in> set (toString_nat (n div 10))"
      with False "1.IH" show ?thesis by simp
    next
      assume "c = of_nat (48 + n mod 10)"
      then show ?thesis by (simp add: digit_unat del: of_nat_add)
    qed
  qed
qed

lemma toString_nat_nonempty: "toString_nat n \<noteq> []"
  by (simp add: toString_nat.simps [of n])

lemma toString_nat_no_minus: "45 \<notin> set (toString_nat n)"
proof
  assume "45 \<in> set (toString_nat n)"
  then have "48 \<le> unat (45 :: 16 word)" by (blast dest: toString_nat_digits)
  then show False by simp
qed

lemma toString_nat_decode:
  "foldl (\<lambda>a c. 10 * a + (unat c - 48)) 0 (toString_nat n) = n"
proof (induction n rule: toString_nat.induct)
  case (1 n)
  show ?case
  proof (cases "n < 10")
    case True
    then show ?thesis by (simp add: toString_nat.simps [of n] digit_unat del: of_nat_add)
  next
    case False
    with "1.IH" have "foldl (\<lambda>a c. 10 * a + (unat c - 48)) 0 (toString_nat (n div 10)) = n div 10"
      by simp
    with False show ?thesis
      by (simp add: toString_nat.simps [of n] digit_unat del: of_nat_add)
  qed
qed

lemma toString_nat_inj: "toString_nat m = toString_nat n \<Longrightarrow> m = n"
  by (metis toString_nat_decode)


lemma toString_int_nonempty: "toString_int t \<noteq> []"
  by (simp add: toString_int_def toString_nat_nonempty)




lemma auto_id_index: "auto_id a m = auto_id b n \<Longrightarrow> m = n"
proof -
  have tw: "takeWhile (\<lambda>c. c \<noteq> 45) (rev (auto_id t k)) = rev (toString_nat k)" for t k
  proof -
    have "rev (auto_id t k) =
            rev (toString_nat k) @ 45 # rev (asc ''auto-'' @ toString_int t)"
      by (simp add: auto_id_def asc_def)
    moreover have "\<forall>c \<in> set (rev (toString_nat k)). c \<noteq> 45"
      using toString_nat_no_minus [of k] by auto
    ultimately show ?thesis by (simp add: takeWhile_tail)
  qed
  assume "auto_id a m = auto_id b n"
  then have "takeWhile (\<lambda>c. c \<noteq> 45) (rev (auto_id a m)) =
             takeWhile (\<lambda>c. c \<noteq> 45) (rev (auto_id b n))" by simp
  then have "toString_nat m = toString_nat n" by (simp only: tw rev_is_rev_conv)
  then show "m = n" by (rule toString_nat_inj)
qed

subsection \<open>The map over the parsed records\<close>

lemma to_annotation_None:
  "item = Null \<or> item = Undefined \<Longrightarrow> to_annotation now i item = None"
  by (auto simp: to_annotation_def get_property_def)

lemma to_annotation_Some:
  assumes "item \<noteq> Null" and "item \<noteq> Undefined"
  shows "\<exists>l vx vy. get_property item (asc ''label'') = Some l
           \<and> get_property item (asc ''x'') = Some vx
           \<and> get_property item (asc ''y'') = Some vy
           \<and> to_annotation now i item =
               Some \<lparr> id' = auto_id now i, x = vx, y = vy, label = l \<rparr>"
  using assms by (cases item) (simp_all add: to_annotation_def get_property_def)

lemma map_items_None:
  "Null \<in> set items \<or> Undefined \<in> set items \<Longrightarrow> map_items clock i items = None"
proof (induction items arbitrary: i)
  case Nil
  then show ?case by simp
next
  case (Cons item items)
  show ?case
  proof (cases "item = Null \<or> item = Undefined")
    case True
    then show ?thesis by (simp add: to_annotation_None)
  next
    case False
    with Cons.prems have "Null \<in> set items \<or> Undefined \<in> set items" by auto
    then have "map_items clock (Suc i) items = None" by (rule Cons.IH)
    then show ?thesis by (simp split: option.splits)
  qed
qed

lemma map_items_Some:
  assumes "Null \<notin> set items" and "Undefined \<notin> set items"
  shows "\<exists>result. map_items clock i items = Some result
           \<and> length result = length items
           \<and> (\<forall>j<length items. \<exists>l vx vy.
                  get_property (items ! j) (asc ''label'') = Some l
                \<and> get_property (items ! j) (asc ''x'') = Some vx
                \<and> get_property (items ! j) (asc ''y'') = Some vy
                \<and> result ! j =
                    \<lparr> id' = auto_id (clock (i + j)) (i + j), x = vx, y = vy, label = l \<rparr>)"
  using assms
proof (induction items arbitrary: i)
  case Nil
  then show ?case by simp
next
  case (Cons item items)
  from Cons.prems have "item \<noteq> Null" and "item \<noteq> Undefined" by auto
  then obtain l vx vy where
    g: "get_property item (asc ''label'') = Some l" "get_property item (asc ''x'') = Some vx"
       "get_property item (asc ''y'') = Some vy"
    and a: "to_annotation (clock i) i item =
              Some \<lparr> id' = auto_id (clock i) i, x = vx, y = vy, label = l \<rparr>"
    using to_annotation_Some [of item "clock i" i] by blast
  from Cons.prems have "Null \<notin> set items" and "Undefined \<notin> set items" by auto
  from Cons.IH [OF this, of "Suc i"] obtain rest where
    r: "map_items clock (Suc i) items = Some rest" "length rest = length items"
    and each: "\<forall>j<length items. \<exists>l vx vy.
          get_property (items ! j) (asc ''label'') = Some l
        \<and> get_property (items ! j) (asc ''x'') = Some vx
        \<and> get_property (items ! j) (asc ''y'') = Some vy
        \<and> rest ! j =
            \<lparr> id' = auto_id (clock (Suc i + j)) (Suc i + j), x = vx, y = vy, label = l \<rparr>"
    by blast
  let ?a = "\<lparr> id' = auto_id (clock i) i, x = vx, y = vy, label = l \<rparr>"
  have m: "map_items clock i (item # items) = Some (?a # rest)"
    by (simp add: a r)
  have "\<exists>l vx vy.
          get_property ((item # items) ! j) (asc ''label'') = Some l
        \<and> get_property ((item # items) ! j) (asc ''x'') = Some vx
        \<and> get_property ((item # items) ! j) (asc ''y'') = Some vy
        \<and> (?a # rest) ! j =
            \<lparr> id' = auto_id (clock (i + j)) (i + j), x = vx, y = vy, label = l \<rparr>"
    if "j < length (item # items)" for j
  proof (cases j)
    case 0
    then show ?thesis using g by simp
  next
    case (Suc k)
    with that have "k < length items" by simp
    with each Suc show ?thesis by simp
  qed
  with m r(2) show ?case by simp
qed

lemma map_items_ids:
  "map_items clock i items = Some result \<Longrightarrow>
     map id' result = map (\<lambda>k. auto_id (clock k) k) [i ..< i + length items]"
proof (induction items arbitrary: i result)
  case Nil
  then show ?case by simp
next
  case (Cons item items)
  from Cons.prems obtain a rest where
    a: "to_annotation (clock i) i item = Some a"
    and r: "map_items clock (Suc i) items = Some rest" and res: "result = a # rest"
    by (auto split: option.splits)
  from a have "id' a = auto_id (clock i) i"
    by (auto simp: to_annotation_def split: option.splits)
  moreover from Cons.IH [OF r]
  have "map id' rest = map (\<lambda>k. auto_id (clock k) k) [Suc i ..< Suc i + length items]" .
  moreover have "[i ..< i + length (item # items)] = i # [Suc i ..< Suc i + length items]"
    by (simp add: upt_conv_Cons del: upt_Suc)
  ultimately show ?case by (simp only: res list.map)
qed

lemma map_items_distinct:
  assumes "map_items clock i items = Some result"
  shows "distinct (map id' result)"
proof -
  have "inj_on (\<lambda>k. auto_id (clock k) k) (set [i ..< i + length items])"
    by (rule inj_onI) (rule auto_id_index)
  then have "distinct (map (\<lambda>k. auto_id (clock k) k) [i ..< i + length items])"
    by (simp add: distinct_map)
  with map_items_ids [OF assms] show ?thesis by simp
qed

lemma detect_not_array:
  "\<forall>items. v \<noteq> Arr items \<Longrightarrow> (case v of Arr items \<Rightarrow> f items | _ \<Rightarrow> None) = None"
  by (cases v) simp_all

lemma ex_json_nonempty: "ex_json \<noteq> []"
  by (simp add: ex_json_def asc_def)

lemma parse_sample_values:
  "parse_sample ex_json =
     Some (Arr [Obj [(asc ''label'', Str (asc ''Face'')), (asc ''x'', Num (Finite 80)),
                     (asc ''y'', Num (Finite 20))]])"
  "parse_sample (asc ''null'') = Some Null"
  "parse_sample (asc ''[null]'') = Some (Arr [Null])"
  "parse_sample (asc ''not json'') = None"
  by (simp_all add: parse_sample_def ex_json_def asc_def)

lemma detect_sample:
  "detectUVParts parse_sample (\<lambda>_. 1700000000000) (Resolved (Some ex_json)) = Resolved [ex_face]"
  by (simp add: detectUVParts_def detect_try_def ex_json_nonempty parse_sample_values
        to_annotation_def get_property_def auto_id_def toString_int_def ex_face_def)
     (simp add: asc_def toString_nat.simps)

section \<open>Properties of the coordinator\<close>

text \<open>
  C1, as stated: a failed generation would keep a prior result. It does not: \<open>handleGenerate\<close>
  replaces the generation state by the loading state, with \<open>resultImage: null\<close>, before
  the call, and stores \<open>resultImage: null\<close> again in its \<open>catch\<close>. From a state holding
  the result \<open>ex_result\<close>, a generation rejected with "quota exceeded" ends without result.
\<close>

theorem generate_failure_discards_result:
  "resultImage (genState ex_ready) = Some ex_result
   \<and> resultImage (genState (handleGenerate ex_ready
         (generateTexture None (annotations ex_ready) quota_exceeded))) = None
   \<and> resultImage (genState (handleGenerate ex_ready
         (generateTexture None (annotations ex_ready) quota_exceeded)))
       \<noteq> resultImage (genState ex_ready)"
proof -
  have c: "generateTexture None (annotations ex_ready) quota_exceeded =
      Rejected (Some (asc ''quota exceeded''))"
    unfolding quota_exceeded_def
    by (rule generateTexture_service_message)
       (simp_all add: asc_def prompt_builds_samples)
  have "genState (handleGenerate ex_ready (Rejected (Some (asc ''quota exceeded'')))) =
          \<lparr> isLoading = False, resultImage = None,
            error = Some (or_else (Some (asc ''quota exceeded'')) msg_generate) \<rparr>"
    by (rule handleGenerate_Rejected)
       (simp_all add: ex_ready_def truthy_def ex_image_nonempty trim_cyberpunk)
  then show ?thesis by (simp add: c) (simp add: ex_ready_def)
qed

text \<open>
  C1, amended: from every state with a loaded image and a style description that is not
  blank, a generation that fails ends with \<open>resultImage\<close> null, whether or not there was
  a prior result, with \<open>isLoading\<close> false and with \<open>error\<close> the message of the error
  \<open>generateTexture\<close> throws, or the fallback for an empty message; when the prompt
  builds, so that the service call was made, that message is not empty and \<open>error\<close> is
  the message.
\<close>

theorem generate_failure_state:
  assumes "truthy (uvImage s)" and "trim (stylePrompt s) \<noteq> []"
    and "generateTexture te (annotations s) a = Rejected m"
  shows "genState (handleGenerate s (generateTexture te (annotations s) a)) =
           \<lparr> isLoading = False, resultImage = None,
             error = Some (or_else m msg_generate) \<rparr>
         \<and> (prompt_builds (annotations s)
              \<longrightarrow> truthy m \<and> Some (or_else m msg_generate) = m)"
proof -
  have "genState (handleGenerate s (Rejected m)) =
          \<lparr> isLoading = False, resultImage = None, error = Some (or_else m msg_generate) \<rparr>"
    using assms(1,2) by (rule handleGenerate_Rejected)
  moreover have "truthy m \<and> Some (or_else m msg_generate) = m"
    if "prompt_builds (annotations s)"
    using generateTexture_Rejected [OF that assms(3)] by (simp add: or_else_truthy)
  ultimately show ?thesis by (simp add: assms(3))
qed

theorem generate_failure_state_witness:
  "truthy (uvImage ex_annotated) \<and> trim (stylePrompt ex_annotated) \<noteq> []
   \<and> prompt_builds (annotations ex_annotated)
   \<and> generateTexture None (annotations ex_annotated) quota_exceeded =
       Rejected (Some (asc ''quota exceeded''))
   \<and> genState (handleGenerate ex_annotated
         (generateTexture None (annotations ex_annotated) quota_exceeded)) =
       \<lparr> isLoading = False, resultImage = None, error = Some (asc ''quota exceeded'') \<rparr>"
proof -
  have a: "truthy (uvImage ex_annotated)"
    by (simp add: ex_annotated_def ex_ready_def truthy_def ex_image_nonempty)
  have b: "trim (stylePrompt ex_annotated) \<noteq> []"
    by (simp add: ex_annotated_def ex_ready_def trim_cyberpunk)
  have l: "prompt_builds (annotations ex_annotated)" by (rule prompt_builds_samples)
  have c: "generateTexture None (annotations ex_annotated) quota_exceeded =
      Rejected (Some (asc ''quota exceeded''))"
    unfolding quota_exceeded_def
    by (rule generateTexture_service_message) (simp_all add: asc_def l)
  from generate_failure_state [OF a b c] a b c l show ?thesis by simp
qed

text \<open>
  C2, as stated: an upload would leave the generation state equal to
  \<open>{isLoading:false, resultImage:null, error:null}\<close> whatever the prior state. The handler
  spreads \<open>prev\<close> and overwrites \<open>resultImage\<close> and \<open>error\<close> only, and the file input is
  disabled by \<open>isDetecting\<close> alone: an upload while a generation is loading leaves
  \<open>isLoading\<close> true.
\<close>

theorem upload_keeps_isLoading:
  "isLoading (genState ex_loading)
   \<and> \<not> fileInput_disabled ex_loading
   \<and> genState (handleFileUpload ex_loading (Some ex_image2) (Resolved [])) =
       \<lparr> isLoading = True, resultImage = None, error = None \<rparr>
   \<and> genState (handleFileUpload ex_loading (Some ex_image2) (Resolved []))
       \<noteq> \<lparr> isLoading = False, resultImage = None, error = None \<rparr>"
  by (simp add: ex_loading_def handleFileUpload_def handleFileUpload_onload_def
        handleFileUpload_detected_def fileInput_disabled_def)

text \<open>
  C2, amended: for every prior state, when the new image has been read the generation state
  has \<open>resultImage\<close> null, \<open>error\<close> null and \<open>isLoading\<close> at its prior value, and the
  annotation list is empty; when the detection the upload starts has settled, the
  generation state is the same and the annotation list holds the detected annotations
  only, none of the prior ones.
\<close>

theorem upload_resets:
  "genState (fst (handleFileUpload_onload s b)) =
     \<lparr> isLoading = isLoading (genState s), resultImage = None, error = None \<rparr>
   \<and> annotations (fst (handleFileUpload_onload s b)) = []
   \<and> genState (handleFileUpload s (Some b) r) =
     \<lparr> isLoading = isLoading (genState s), resultImage = None, error = None \<rparr>
   \<and> annotations (handleFileUpload s (Some b) r) =
     (case r of Resolved detectedParts \<Rightarrow> detectedParts | Rejected _ \<Rightarrow> [])"
  by (cases r)
     (simp_all add: handleFileUpload_def handleFileUpload_onload_def
        handleFileUpload_detected_def)

text \<open>
  C3, as stated: with \<open>isLoading\<close> true every trigger would be ignored, with the state
  unchanged and no call issued. Choosing a file while a generation is loading is let
  through: the state changes and \<open>detectUVParts\<close> is called.
\<close>

theorem upload_while_loading:
  "isLoading (genState ex_loading)
   \<and> dispatch ex_loading (ChooseFile ex_image2) =
       (ex_loading\<lparr> uvImage := Some ex_image2, isDetecting := True \<rparr>,
        Some (DetectUVParts (Some (asc ''BBBB''))))
   \<and> fst (dispatch ex_loading (ChooseFile ex_image2)) \<noteq> ex_loading
   \<and> snd (dispatch ex_loading (ChooseFile ex_image2)) \<noteq> None"
  by (simp add: ex_loading_def dispatch_def fileInput_disabled_def
        handleFileUpload_onload_def ex_image2_def split_comma_1_def asc_def)

text \<open>
  C3, amended: with \<open>isLoading\<close> true the generate button and the edit button are
  disabled, so a click on either leaves the state unchanged and issues no call; choosing a
  file is gated by \<open>isDetecting\<close>, not by \<open>isLoading\<close>.
\<close>

theorem loading_disables_buttons:
  assumes "isLoading (genState s)"
  shows "dispatch s ClickGenerate = (s, None)
         \<and> dispatch s ClickEdit = (s, None)
         \<and> dispatch s (ChooseFile b) =
             (if isDetecting s then (s, None)
              else (fst (handleFileUpload_onload s b), Some (DetectUVParts (split_comma_1 b))))"
  using assms
  by (simp add: dispatch_def generateButton_disabled_def editButton_disabled_def
        fileInput_disabled_def handleFileUpload_onload_def)

theorem loading_disables_buttons_witness:
  "isLoading (genState ex_loading)
   \<and> dispatch ex_loading ClickGenerate = (ex_loading, None)
   \<and> dispatch ex_loading ClickEdit = (ex_loading, None)"
proof -
  have a: "isLoading (genState ex_loading)" by (simp add: ex_loading_def)
  from loading_disables_buttons [OF a, of ex_image2] a show ?thesis by simp
qed

text \<open>
  The Enter key of the edit field calls \<open>handleEdit\<close> with no such gate: with an edit in
  flight it issues a second call.
\<close>

lemma enter_key_while_editing:
  "isLoading (genState ex_editing)
   \<and> dispatch ex_editing EnterInEditField =
       (ex_editing, Some (EditTexture (Some (asc ''RRRR'')) (asc ''make it red'')))"
  by (simp add: ex_editing_def ex_ready_def dispatch_def editSection_rendered_def
        handleEdit_start_def truthy_def trim_make_it_red ex_image_nonempty)
     (simp add: ex_result_def split_comma_1_def asc_def)

text \<open>
  C4: with an image loaded and a style description that is empty or blank, generate issues
  no call, sets the validation message, which is not empty and so is shown, and changes
  nothing else: the state is the prior one with \<open>error\<close> replaced.
\<close>

theorem generate_blank_style_rejected:
  assumes "truthy (uvImage s)" and "trim (stylePrompt s) = []"
  shows "handleGenerate_start s =
           (s\<lparr> genState := (genState s)\<lparr> error := Some msg_style \<rparr> \<rparr>, None)
         \<and> handleGenerate s r = s\<lparr> genState := (genState s)\<lparr> error := Some msg_style \<rparr> \<rparr>
         \<and> truthy (error (genState (handleGenerate s r)))
         \<and> resultImage (genState (handleGenerate s r)) = resultImage (genState s)
         \<and> isLoading (genState (handleGenerate s r)) = isLoading (genState s)
         \<and> annotations (handleGenerate s r) = annotations s"
  using assms
  by (auto simp: handleGenerate_def handleGenerate_start_def truthy_def msg_style_nonempty
        split: option.splits)

theorem generate_blank_style_rejected_witness:
  "truthy (uvImage ex_blank) \<and> trim (stylePrompt ex_blank) = []
   \<and> handleGenerate_start ex_blank =
       (ex_blank\<lparr> genState := \<lparr> isLoading = False, resultImage = Some ex_result,
                                 error = Some msg_style \<rparr> \<rparr>, None)"
proof -
  have a: "truthy (uvImage ex_blank)"
    by (simp add: ex_blank_def ex_ready_def truthy_def ex_image_nonempty)
  have b: "trim (stylePrompt ex_blank) = []"
    by (simp add: ex_blank_def trim_blank)
  from generate_blank_style_rejected [OF a b, of "Resolved []"] a b show ?thesis
    by (simp add: ex_blank_def ex_ready_def)
qed

text \<open>
  C6: with a result image \<open>R\<close> and an edit instruction that is not blank, an edit whose
  service call fails ends with \<open>resultImage\<close> still \<open>R\<close>, with \<open>error\<close> the message of the
  error \<open>editTexture\<close> throws, which is never empty, and with \<open>isLoading\<close> false.
\<close>

theorem edit_failure_keeps_result:
  assumes "resultImage (genState s) = Some R" and "R \<noteq> []"
    and "trim (editPrompt s) \<noteq> []" and "editTexture a = Rejected m"
  shows "genState (handleEdit s (editTexture a)) =
           \<lparr> isLoading = False, resultImage = Some R, error = m \<rparr>
         \<and> truthy m"
proof -
  have t: "truthy m" using assms(4) by (rule editTexture_Rejected)
  have "genState (handleEdit s (Rejected m)) =
          \<lparr> isLoading = False, resultImage = Some R, error = Some (or_else m msg_edit) \<rparr>"
    using assms(1,2,3) by (rule handleEdit_Rejected)
  with t show ?thesis by (simp add: assms(4) or_else_truthy)
qed

theorem edit_failure_keeps_result_witness:
  "resultImage (genState ex_ready) = Some ex_result \<and> ex_result \<noteq> []
   \<and> trim (editPrompt ex_ready) \<noteq> []
   \<and> editTexture quota_exceeded = Rejected (Some (asc ''quota exceeded''))
   \<and> genState (handleEdit ex_ready (editTexture quota_exceeded)) =
       \<lparr> isLoading = False, resultImage = Some ex_result,
         error = Some (asc ''quota exceeded'') \<rparr>"
proof -
  have a: "resultImage (genState ex_ready) = Some ex_result"
    by (simp add: ex_ready_def)
  have b: "ex_result \<noteq> []" by (rule ex_image_nonempty)
  have c: "trim (editPrompt ex_ready) \<noteq> []"
    by (simp add: ex_ready_def trim_make_it_red)
  have d: "editTexture quota_exceeded = Rejected (Some (asc ''quota exceeded''))"
    unfolding quota_exceeded_def by (rule editTexture_service_message) (simp add: asc_def)
  from edit_failure_keeps_result [OF a b c d] a b c d show ?thesis by simp
qed

text \<open>
  C9: after any sequence of completed uploads, generations and edits, with their validation
  and failure paths and with the prompts and annotations edited in between, \<open>isLoading\<close>
  and a non-null \<open>error\<close> do not hold together.
\<close>

theorem loading_excludes_error_at_rest:
  "\<not> (isLoading (genState (run initial acts)) \<and> error (genState (run initial acts)) \<noteq> None)"
proof -
  have "\<not> isLoading (genState initial)" by (simp add: initial_def)
  then have "\<not> isLoading (genState (run initial acts))" by (rule run_not_loading)
  then show ?thesis by simp
qed

theorem loading_excludes_error_at_rest_witness:
  "error (genState (run initial [Upload (Some ex_image) (Resolved []),
       Generate (Resolved ex_result)])) = Some msg_style
   \<and> \<not> isLoading (genState (run initial [Upload (Some ex_image) (Resolved []),
       Generate (Resolved ex_result)]))"
proof -
  have "error (genState (run initial [Upload (Some ex_image) (Resolved []),
       Generate (Resolved ex_result)])) = Some msg_style"
    by (simp add: run_def initial_def handleFileUpload_def handleFileUpload_onload_def
        handleFileUpload_detected_def handleGenerate_def handleGenerate_start_def
        ex_image_nonempty trim_def)
  with loading_excludes_error_at_rest
         [of "[Upload (Some ex_image) (Resolved []), Generate (Resolved ex_result)]"]
  show ?thesis by simp
qed

text \<open>
  The same holds in every state of the running application, with calls in flight and
  settling in any order, under the gates of the view; and with no call in flight nothing
  is loading.
\<close>

lemma reachable_loading_excludes_error:
  "reachable \<sigma> \<Longrightarrow>
     \<not> (isLoading (genState (app \<sigma>)) \<and> error (genState (app \<sigma>)) \<noteq> None)"
proof (induction rule: reachable.induct)
  case started
  show ?case by (simp add: initial_def)
next
  case (triggered \<sigma> t s' rq)
  then show ?case using dispatch_keeps_exclusion [of "app \<sigma>" t s' rq] by simp
qed (simp_all add: settled_not_loading detected_genState)

lemma reachable_at_rest_not_loading:
  "reachable \<sigma> \<Longrightarrow> pending \<sigma> = [] \<Longrightarrow> \<not> isLoading (genState (app \<sigma>))"
  by (auto dest: reachable_loading_pending)

text \<open>
  C10: an upload leaves the style description and the edit instruction as they were, at
  each of its two steps and as a whole; from a state whose file input is enabled, the whole
  upload changes the image, the annotation list, \<open>resultImage\<close> and \<open>error\<close> and nothing
  else (the detecting flag is raised in between and lowered at the end).
\<close>

theorem upload_keeps_prompts:
  "stylePrompt (handleFileUpload s chosen r) = stylePrompt s
   \<and> editPrompt (handleFileUpload s chosen r) = editPrompt s
   \<and> stylePrompt (fst (handleFileUpload_onload s b)) = stylePrompt s
   \<and> editPrompt (fst (handleFileUpload_onload s b)) = editPrompt s
   \<and> stylePrompt (handleFileUpload_detected s r) = stylePrompt s
   \<and> editPrompt (handleFileUpload_detected s r) = editPrompt s
   \<and> (\<not> fileInput_disabled s \<longrightarrow>
        handleFileUpload s (Some b) r =
          s\<lparr> uvImage := Some b,
             annotations := (case r of Resolved detectedParts \<Rightarrow> detectedParts
                             | Rejected _ \<Rightarrow> []),
             genState := (genState s)\<lparr> resultImage := None, error := None \<rparr> \<rparr>)"
  by (cases r; cases chosen)
     (simp_all add: handleFileUpload_def handleFileUpload_onload_def
        handleFileUpload_detected_def fileInput_disabled_def)

theorem upload_keeps_prompts_witness:
  "\<not> fileInput_disabled ex_ready
   \<and> handleFileUpload ex_ready (Some ex_image2) (Resolved [ex_face]) =
       ex_ready\<lparr> uvImage := Some ex_image2, annotations := [ex_face],
                 genState := \<lparr> isLoading = False, resultImage = None, error = None \<rparr> \<rparr>
   \<and> stylePrompt (handleFileUpload ex_ready (Some ex_image2) (Resolved [ex_face]))
       = asc ''cyberpunk armor''
   \<and> editPrompt (handleFileUpload ex_ready (Some ex_image2) (Resolved [ex_face]))
       = asc ''make it red''"
proof -
  have a: "\<not> fileInput_disabled ex_ready"
    by (simp add: fileInput_disabled_def ex_ready_def)
  from upload_keeps_prompts [of ex_ready "Some ex_image2" "Resolved [ex_face]" ex_image2] a
  show ?thesis by (simp add: ex_ready_def)
qed

section \<open>Properties of detection\<close>

text \<open>
  C5: \<open>detectUVParts\<close> always resolves, whatever the service does. It resolves to the empty
  list when the call rejects, when the response has no text or an empty one, when the text
  does not parse, when the parsed value is not an array, when a record of the array is
  \<open>null\<close>, and when the array is empty. Otherwise it resolves to one annotation per
  record, in order, each with the \<open>label\<close>, \<open>x\<close> and \<open>y\<close> of its record and the id
  \<open>auto-<clock>-<index>\<close>; these ids differ from one another.
\<close>

theorem detect_never_raises:
  "(\<exists>result. detectUVParts parse clock r = Resolved result)
   \<and> detectUVParts parse clock (Rejected m) = Resolved []
   \<and> (\<not> truthy tx \<longrightarrow> detectUVParts parse clock (Resolved tx) = Resolved [])
   \<and> (t \<noteq> [] \<and> parse t = None
        \<longrightarrow> detectUVParts parse clock (Resolved (Some t)) = Resolved [])
   \<and> (t \<noteq> [] \<and> parse t = Some v \<and> (\<forall>items. v \<noteq> Arr items)
        \<longrightarrow> detectUVParts parse clock (Resolved (Some t)) = Resolved [])
   \<and> (t \<noteq> [] \<and> parse t = Some (Arr items) \<and> (Null \<in> set items \<or> Undefined \<in> set items)
        \<longrightarrow> detectUVParts parse clock (Resolved (Some t)) = Resolved [])
   \<and> (t \<noteq> [] \<and> parse t = Some (Arr [])
        \<longrightarrow> detectUVParts parse clock (Resolved (Some t)) = Resolved [])
   \<and> (t \<noteq> [] \<and> parse t = Some (Arr items) \<and> Null \<notin> set items \<and> Undefined \<notin> set items
        \<longrightarrow> (\<exists>result. detectUVParts parse clock (Resolved (Some t)) = Resolved result
               \<and> length result = length items
               \<and> (\<forall>j<length items. \<exists>l vx vy.
                      get_property (items ! j) (asc ''label'') = Some l
                    \<and> get_property (items ! j) (asc ''x'') = Some vx
                    \<and> get_property (items ! j) (asc ''y'') = Some vy
                    \<and> result ! j = \<lparr> id' = auto_id (clock j) j, x = vx, y = vy, label = l \<rparr>)
               \<and> distinct (map id' result)))"
proof -
  have total: "\<exists>result. detectUVParts parse clock r = Resolved result"
    by (simp add: detectUVParts_def split: option.splits)
  have rejected: "detectUVParts parse clock (Rejected m) = Resolved []"
    by (simp add: detectUVParts_def detect_try_def)
  have no_text: "detectUVParts parse clock (Resolved tx) = Resolved []" if "\<not> truthy tx"
    using that by (cases tx) (simp_all add: detectUVParts_def detect_try_def truthy_def)
  have no_parse: "detectUVParts parse clock (Resolved (Some t)) = Resolved []"
    if "t \<noteq> []" and "parse t = None"
    using that by (simp add: detectUVParts_def detect_try_def)
  have no_array: "detectUVParts parse clock (Resolved (Some t)) = Resolved []"
    if "t \<noteq> []" and "parse t = Some v" and "\<forall>items. v \<noteq> Arr items"
    using that by (simp add: detectUVParts_def detect_try_def detect_not_array)
  have null_item: "detectUVParts parse clock (Resolved (Some t)) = Resolved []"
    if "t \<noteq> []" and "parse t = Some (Arr items)"
      and "Null \<in> set items \<or> Undefined \<in> set items"
    using that by (simp add: detectUVParts_def detect_try_def map_items_None)
  have empty: "detectUVParts parse clock (Resolved (Some t)) = Resolved []"
    if "t \<noteq> []" and "parse t = Some (Arr [])"
    using that by (simp add: detectUVParts_def detect_try_def)
  have well: "\<exists>result. detectUVParts parse clock (Resolved (Some t)) = Resolved result
               \<and> length result = length items
               \<and> (\<forall>j<length items. \<exists>l vx vy.
                      get_property (items ! j) (asc ''label'') = Some l
                    \<and> get_property (items ! j) (asc ''x'') = Some vx
                    \<and> get_property (items ! j) (asc ''y'') = Some vy
                    \<and> result ! j = \<lparr> id' = auto_id (clock j) j, x = vx, y = vy, label = l \<rparr>)
               \<and> distinct (map id' result)"
    if "t \<noteq> []" and "parse t = Some (Arr items)"
      and "Null \<notin> set items" and "Undefined \<notin> set items"
  proof -
    from map_items_Some [OF that(3,4), of clock 0] obtain result where
      m: "map_items clock 0 items = Some result" and len: "length result = length items"
      and each: "\<forall>j<length items. \<exists>l vx vy.
                      get_property (items ! j) (asc ''label'') = Some l
                    \<and> get_property (items ! j) (asc ''x'') = Some vx
                    \<and> get_property (items ! j) (asc ''y'') = Some vy
                    \<and> result ! j = \<lparr> id' = auto_id (clock j) j, x = vx, y = vy, label = l \<rparr>"
      by auto
    have "detectUVParts parse clock (Resolved (Some t)) = Resolved result"
      using that(1,2) m by (simp add: detectUVParts_def detect_try_def)
    with len each map_items_distinct [OF m] show ?thesis by blast
  qed
  show ?thesis
    using total rejected no_text no_parse no_array null_item empty well by blast
qed

theorem detect_never_raises_witness:
  "detectUVParts parse_sample (\<lambda>_. 1700000000000) (Resolved (Some ex_json)) = Resolved [ex_face]
   \<and> distinct (map id' [ex_face])
   \<and> \<not> truthy (Some [])
   \<and> detectUVParts parse_sample (\<lambda>_. 1700000000000) (Resolved (Some [])) = Resolved []
   \<and> parse_sample (asc ''not json'') = None
   \<and> detectUVParts parse_sample (\<lambda>_. 1700000000000) (Resolved (Some (asc ''not json'')))
       = Resolved []
   \<and> parse_sample (asc ''null'') = Some Null
   \<and> detectUVParts parse_sample (\<lambda>_. 1700000000000) (Resolved (Some (asc ''null'')))
       = Resolved []
   \<and> parse_sample (asc ''[null]'') = Some (Arr [Null])
   \<and> detectUVParts parse_sample (\<lambda>_. 1700000000000) (Resolved (Some (asc ''[null]'')))
       = Resolved []"
proof -
  let ?c = "\<lambda>_::nat. 1700000000000 :: int"
  let ?rec = "Obj [(asc ''label'', Str (asc ''Face'')), (asc ''x'', Num (Finite 80)),
                   (asc ''y'', Num (Finite 20))]"
  have ne: "asc ''not json'' \<noteq> []" "asc ''null'' \<noteq> []" "asc ''[null]'' \<noteq> []"
    by (simp_all add: asc_def)
  have f: "\<not> truthy (Some [])" by (simp add: truthy_def)
  from detect_never_raises [of parse_sample ?c "Resolved None" None "Some []" ex_json Null "[?rec]"]
  have 1: "distinct (map id' [ex_face])"
    and 2: "detectUVParts parse_sample ?c (Resolved (Some [])) = Resolved []"
    using f by (simp_all add: detect_sample ex_json_nonempty parse_sample_values)
  from detect_never_raises [of parse_sample ?c "Resolved None" None None "asc ''not json''" Null "[]"]
  have 3: "detectUVParts parse_sample ?c (Resolved (Some (asc ''not json''))) = Resolved []"
    by (simp add: ne parse_sample_values)
  from detect_never_raises [of parse_sample ?c "Resolved None" None None "asc ''null''" Null "[]"]
  have 4: "detectUVParts parse_sample ?c (Resolved (Some (asc ''null''))) = Resolved []"
    by (simp add: ne parse_sample_values)
  from detect_never_raises [of parse_sample ?c "Resolved None" None None "asc ''[null]''" Null "[Null]"]
  have 5: "detectUVParts parse_sample ?c (Resolved (Some (asc ''[null]''))) = Resolved []"
    by (simp add: ne parse_sample_values)
  show ?thesis using 1 2 3 4 5 f by (simp add: detect_sample parse_sample_values)
qed

section \<open>Properties of the canvas editor\<close>

text \<open>
  A container of no width gives \<open>0/0\<close>, which the clamp leaves as NaN; the property below
  is about a canvas that has an extent.
\<close>

lemma clamp_percent_degenerate: "clamp (percent c c 0) = NaN"
  by (simp add: clamp_def percent_def)

text \<open>
  C7: during a drag over a canvas of positive width and height, every pointer position
  gives finite coordinates with both axes in [0,100]. On each axis by itself, a position
  within the bounds gives its percentage, a position before the origin gives exactly 0 and
  a position beyond the far edge exactly 100. The annotations with the dragged id get
  these coordinates and keep id and label; all others stay as they are.
\<close>

theorem drag_position_clamped:
  assumes "d \<noteq> []" and "0 < width rect" and "0 < height rect"
  shows "\<exists>vx vy.
           clamp (percent (clientX e) (left rect) (width rect)) = Finite vx
         \<and> clamp (percent (clientY e) (top' rect) (height rect)) = Finite vy
         \<and> 0 \<le> vx \<and> vx \<le> 100 \<and> 0 \<le> vy \<and> vy \<le> 100
         \<and> (left rect \<le> clientX e \<and> clientX e \<le> left rect + width rect
              \<longrightarrow> vx = (clientX e - left rect) / width rect * 100)
         \<and> (clientX e < left rect \<longrightarrow> vx = 0)
         \<and> (left rect + width rect < clientX e \<longrightarrow> vx = 100)
         \<and> (top' rect \<le> clientY e \<and> clientY e \<le> top' rect + height rect
              \<longrightarrow> vy = (clientY e - top' rect) / height rect * 100)
         \<and> (clientY e < top' rect \<longrightarrow> vy = 0)
         \<and> (top' rect + height rect < clientY e \<longrightarrow> vy = 100)
         \<and> handlePointerMove (Some d) (Some rect) e prev =
             map (\<lambda>ann. if id' ann = d then ann\<lparr> x := Num (Finite vx), y := Num (Finite vy) \<rparr>
                         else ann) prev
         \<and> map id' (handlePointerMove (Some d) (Some rect) e prev) = map id' prev
         \<and> map label (handlePointerMove (Some d) (Some rect) e prev) = map label prev"
proof -
  let ?vx = "max 0 (min 100 ((clientX e - left rect) / width rect * 100))"
  let ?vy = "max 0 (min 100 ((clientY e - top' rect) / height rect * 100))"
  have cx: "clamp (percent (clientX e) (left rect) (width rect)) = Finite ?vx"
    using assms(2) by (rule clamp_percent)
  have cy: "clamp (percent (clientY e) (top' rect) (height rect)) = Finite ?vy"
    using assms(3) by (rule clamp_percent)
  have px: "0 \<le> ?vx \<and> ?vx \<le> 100
      \<and> (left rect \<le> clientX e \<and> clientX e \<le> left rect + width rect
            \<longrightarrow> ?vx = (clientX e - left rect) / width rect * 100)
      \<and> (clientX e < left rect \<longrightarrow> ?vx = 0)
      \<and> (left rect + width rect < clientX e \<longrightarrow> ?vx = 100)"
    using assms(2) by (rule pinned)
  have py: "0 \<le> ?vy \<and> ?vy \<le> 100
      \<and> (top' rect \<le> clientY e \<and> clientY e \<le> top' rect + height rect
            \<longrightarrow> ?vy = (clientY e - top' rect) / height rect * 100)
      \<and> (clientY e < top' rect \<longrightarrow> ?vy = 0)
      \<and> (top' rect + height rect < clientY e \<longrightarrow> ?vy = 100)"
    using assms(3) by (rule pinned)
  have hm: "handlePointerMove (Some d) (Some rect) e prev =
      map (\<lambda>ann. if id' ann = d then ann\<lparr> x := Num (Finite ?vx), y := Num (Finite ?vy) \<rparr>
                  else ann) prev"
    using assms(1) by (simp add: handlePointerMove_def cx cy)
  have ids: "map id' (handlePointerMove (Some d) (Some rect) e prev) = map id' prev"
    unfolding hm by (induction prev) simp_all
  have labels: "map label (handlePointerMove (Some d) (Some rect) e prev) = map label prev"
    unfolding hm by (induction prev) simp_all
  show ?thesis
    apply (rule exI [of _ ?vx])
    apply (rule exI [of _ ?vy])
    using cx cy px py hm ids labels
    apply (intro conjI)
    apply blast+
    done
qed

theorem drag_position_clamped_witness:
  "asc ''auto-1700000000000-0'' \<noteq> [] \<and> 0 < width ex_rect \<and> 0 < height ex_rect
   \<and> handlePointerMove (Some (asc ''auto-1700000000000-0'')) (Some ex_rect) ex_move
        [ex_face, ex_torso]
       = [ex_face\<lparr> x := Num (Finite 100), y := Num (Finite 50) \<rparr>, ex_torso]"
proof -
  have a: "asc ''auto-1700000000000-0'' \<noteq> []" by (simp add: asc_def)
  have b: "0 < width ex_rect" and c: "0 < height ex_rect" by (simp_all add: ex_rect_def)
  from drag_position_clamped [OF a b c, of ex_move "[ex_face, ex_torso]"]
  obtain vx vy where
    h: "left ex_rect + width ex_rect < clientX ex_move \<longrightarrow> vx = 100"
       "top' ex_rect \<le> clientY ex_move \<and> clientY ex_move \<le> top' ex_rect + height ex_rect
          \<longrightarrow> vy = (clientY ex_move - top' ex_rect) / height ex_rect * 100"
       "handlePointerMove (Some (asc ''auto-1700000000000-0'')) (Some ex_rect) ex_move
          [ex_face, ex_torso] =
        map (\<lambda>ann. if id' ann = asc ''auto-1700000000000-0''
                    then ann\<lparr> x := Num (Finite vx), y := Num (Finite vy) \<rparr> else ann)
          [ex_face, ex_torso]"
    by blast
  have vx: "vx = 100" using h(1) by (simp add: ex_rect_def ex_move_def)
  have vy: "vy = 50" using h(2) by (simp add: ex_rect_def ex_move_def)
  show ?thesis using a b c h(3) by (simp add: vx vy ex_face_torso_ids)
qed




end
